theory Spec2Isabelle
  imports Main "HOL-Library.AList" "HOL-Library.FSet" "HOL-Library.Sublist"
begin

section \<open>Values held by a loaded document\<close>

text \<open>
  A document is whatever \<^verbatim>\<open>yaml.safe_load\<close> returned for its file: a nesting of
  Python dicts, lists, strings and other scalars. Leaves are \<open>'a leaf\<close>: \<open>LNone\<close> is
  Python's \<^verbatim>\<open>None\<close>, \<open>LStr\<close> a \<^verbatim>\<open>str\<close>, and \<open>LOther\<close> any other scalar (int, float,
  bool, date, bytes), with HOL equality on \<open>'a\<close> standing for Python's \<^verbatim>\<open>==\<close> on such
  values. Dict keys are hashable, so they are leaves. A dict keeps insertion order: it
  is an association list, read with \<open>map_of\<close> and written with \<open>AList.update\<close> (a present
  key keeps its position, a new key goes to the end).

  The parser builds two more kinds of container: a \<^verbatim>\<open>!!omap\<close> or \<^verbatim>\<open>!!pairs\<close> node gives a
  list of tuples (\<open>PTuple\<close>), and a \<^verbatim>\<open>!!set\<close> node gives a set of hashable values (\<open>PSet\<close>).

  A Python \<^verbatim>\<open>str\<close> is modelled as a \<open>string\<close>. The program compares strings, joins
  them, tests for a substring and looks for the newline, the dot and the slash; none
  of this depends on whether a character is a code point or a byte of UTF-8.
\<close>

datatype 'a leaf = LNone | LStr string | LOther 'a

datatype 'a pyval =
    PLeaf "'a leaf"
  | PList "'a pyval list"
  | PDict "('a leaf \<times> 'a pyval) list"
  | PTuple "'a pyval list"
  | PSet "'a leaf fset"

section \<open>The loader's transform (endpoint.py)\<close>

text \<open>\<^verbatim>\<open>data.rstrip("\n")\<close>: every trailing newline character is removed.\<close>

definition rstrip_newline :: "string \<Rightarrow> string" where
  "rstrip_newline s = rev (dropWhile (\<lambda>c. c = CHR 0x0A) (rev s))"

text \<open>
  A dict display or comprehension stores its items from left to right, a later item
  with an equal key overwriting the value of the earlier one in place.
\<close>

definition dict_of_items :: "('k \<times> 'v) list \<Rightarrow> ('k \<times> 'v) list" where
  "dict_of_items items = fold (\<lambda>kv d. AList.update (fst kv) (snd kv) d) items []"

text \<open>
  \<^verbatim>\<open>transform_data\<close> on a leaf: the \<^verbatim>\<open>str\<close> branch strips, the \<^verbatim>\<open>else\<close> branch prints a
  notice on standard output (not modelled) and returns the value as it is. Dict keys
  only ever reach these two branches. A tuple and a set are neither a dict, a list nor
  a str: they take the \<^verbatim>\<open>else\<close> branch too and are returned as they are, whatever they
  hold.
\<close>

fun transform_leaf :: "'a leaf \<Rightarrow> 'a leaf" where
  "transform_leaf (LStr s) = LStr (rstrip_newline s)"
| "transform_leaf x = x"

primrec transform_data :: "'a pyval \<Rightarrow> 'a pyval" where
  "transform_data (PDict kvs) =
     PDict (dict_of_items (map (map_prod transform_leaf transform_data) kvs))"
| "transform_data (PList xs) = PList (map transform_data xs)"
| "transform_data (PLeaf x) = PLeaf (transform_leaf x)"
| "transform_data (PTuple xs) = PTuple xs"
| "transform_data (PSet S) = PSet S"

section \<open>Exceptions and Python's operations on a value\<close>

text \<open>
  \<open>HTTPException status_code detail\<close> is what the handlers raise themselves. The
  other constructors are the exceptions Python raises under them; the web framework
  answers any exception that is not an \<open>HTTPException\<close> with status 500.
\<close>

datatype py_exception =
    HTTPException nat string
  | KeyError string
  | TypeError
  | AttributeError
  | YAMLError

text \<open>Sequencing: the first exception raised ends the computation.\<close>

definition and_then :: "'e + 'a \<Rightarrow> ('a \<Rightarrow> 'e + 'b) \<Rightarrow> 'e + 'b" where
  "and_then r f = (case r of Inl e \<Rightarrow> Inl e | Inr x \<Rightarrow> f x)"

text \<open>\<^verbatim>\<open>list(x.keys())\<close>: only a dict has the method.\<close>

fun py_keys :: "'a pyval \<Rightarrow> py_exception + 'a leaf list" where
  "py_keys (PDict kvs) = Inr (map fst kvs)"
| "py_keys (PList xs) = Inl AttributeError"
| "py_keys (PLeaf x) = Inl AttributeError"
| "py_keys (PTuple xs) = Inl AttributeError"
| "py_keys (PSet S) = Inl AttributeError"

text \<open>
  \<^verbatim>\<open>key in x\<close> for a str \<^verbatim>\<open>key\<close>: key membership in a dict, element membership in a
  list, a tuple and a set, substring test in a str, \<^verbatim>\<open>TypeError\<close> on any other leaf.
\<close>

fun py_contains :: "string \<Rightarrow> 'a pyval \<Rightarrow> py_exception + bool" where
  "py_contains k (PDict kvs) = Inr (map_of kvs (LStr k) \<noteq> None)"
| "py_contains k (PList xs) = Inr (PLeaf (LStr k) \<in> set xs)"
| "py_contains k (PTuple xs) = Inr (PLeaf (LStr k) \<in> set xs)"
| "py_contains k (PSet S) = Inr (LStr k |\<in>| S)"
| "py_contains k (PLeaf (LStr s)) = Inr (sublist k s)"
| "py_contains k (PLeaf LNone) = Inl TypeError"
| "py_contains k (PLeaf (LOther x)) = Inl TypeError"

text \<open>
  \<^verbatim>\<open>x[key]\<close> for a str \<^verbatim>\<open>key\<close>: a dict raises \<^verbatim>\<open>KeyError\<close> on a missing key; a list, a
  tuple, a set, a str and every other leaf raise \<^verbatim>\<open>TypeError\<close>.
\<close>

fun py_getitem :: "'a pyval \<Rightarrow> string \<Rightarrow> py_exception + 'a pyval" where
  "py_getitem (PDict kvs) k =
     (case map_of kvs (LStr k) of None \<Rightarrow> Inl (KeyError k) | Some v \<Rightarrow> Inr v)"
| "py_getitem (PList xs) k = Inl TypeError"
| "py_getitem (PLeaf x) k = Inl TypeError"
| "py_getitem (PTuple xs) k = Inl TypeError"
| "py_getitem (PSet S) k = Inl TypeError"

text \<open>
  \<^verbatim>\<open>xs.insert(i, x)\<close> for \<open>i \<ge> 0\<close>: \<open>x\<close> goes before position \<open>i\<close>, or to the end when
  the list is shorter than \<open>i\<close>.
\<close>

definition list_insert :: "nat \<Rightarrow> 'b \<Rightarrow> 'b list \<Rightarrow> 'b list" where
  "list_insert i x xs = take i xs @ x # drop i xs"

section \<open>The query handlers (endpoint.py and routes/user_document.py, same text)\<close>

text \<open>
  The module's global \<^verbatim>\<open>loaded_documents\<close>, a dict from document name to content, is
  an explicit argument of every handler.
\<close>

type_synonym 'a store = "(string \<times> 'a pyval) list"

definition check_document_loaded :: "string \<Rightarrow> 'a store \<Rightarrow> py_exception + 'a pyval" where
  "check_document_loaded document_name loaded_documents =
     (case map_of loaded_documents document_name of
        Some content \<Rightarrow> Inr content
      | None \<Rightarrow>
          Inl (HTTPException 404 (''Document '' @ document_name @ ''.yml not found'')))"

definition get_document_list :: "'a store \<Rightarrow> string list" where
  "get_document_list loaded_documents = map fst loaded_documents"

definition get_document_content :: "'a store \<Rightarrow> string \<Rightarrow> py_exception + 'a pyval" where
  "get_document_content loaded_documents document =
     check_document_loaded document loaded_documents"

definition get_document_content_sections ::
  "'a store \<Rightarrow> string \<Rightarrow> py_exception + 'a leaf list" where
  "get_document_content_sections loaded_documents document =
     and_then (check_document_loaded document loaded_documents) (\<lambda>document_content.
     and_then (py_keys document_content) (\<lambda>sections.
       Inr (list_insert 10 (LStr ''document_control'')
             (list_insert 6 (LStr ''metadata'') sections))))"

text \<open>
  The dict displays of the two projections evaluate their values from top to bottom,
  so the first missing field is the one whose \<^verbatim>\<open>KeyError\<close> is raised. Their keys are
  distinct literals, so the result holds them in the order written.
\<close>

definition get_document_content_metadata ::
  "'a store \<Rightarrow> string \<Rightarrow> py_exception + 'a pyval" where
  "get_document_content_metadata loaded_documents document =
     and_then (check_document_loaded document loaded_documents) (\<lambda>content.
     and_then (py_getitem content ''type'') (\<lambda>v1.
     and_then (py_getitem content ''document_no'') (\<lambda>v2.
     and_then (py_getitem content ''effective_date'') (\<lambda>v3.
     and_then (py_getitem content ''document_rev'') (\<lambda>v4.
     and_then (py_getitem content ''title'') (\<lambda>v5.
     and_then (py_getitem content ''document_code'') (\<lambda>v6.
       Inr (PDict
         [(LStr ''document_type'', v1),
          (LStr ''document_no'', v2),
          (LStr ''effective_date'', v3),
          (LStr ''document_rev'', v4),
          (LStr ''title'', v5),
          (LStr ''document_code'', v6)]))))))))"

definition get_document_document_control ::
  "'a store \<Rightarrow> string \<Rightarrow> py_exception + 'a pyval" where
  "get_document_document_control loaded_documents document =
     and_then (check_document_loaded document loaded_documents) (\<lambda>content.
     and_then (py_getitem content ''revision_history'') (\<lambda>v1.
     and_then (py_getitem content ''prepared_by'') (\<lambda>v2.
     and_then (py_getitem content ''reviewed_approved_by'') (\<lambda>v3.
       Inr (PDict
         [(LStr ''revision_history'', v1),
          (LStr ''prepared_by'', v2),
          (LStr ''reviewed_approved_by'', v3)])))))"

definition section_not_found :: "string \<Rightarrow> string \<Rightarrow> string" where
  "section_not_found section document =
     ''Section '' @ [CHR 0x27] @ section @ [CHR 0x27] @ '' doesn't exist in '' @
     document @ ''.yml''"

definition get_document_content_section ::
  "'a store \<Rightarrow> string \<Rightarrow> string \<Rightarrow> py_exception + 'a pyval" where
  "get_document_content_section loaded_documents document section =
     and_then (check_document_loaded document loaded_documents) (\<lambda>content.
     and_then (py_contains section content) (\<lambda>present.
       if \<not> present
       then Inl (HTTPException 404 (section_not_found section document))
       else py_getitem content section))"

section \<open>The load phase\<close>

text \<open>
  \<^verbatim>\<open>os.path.basename(input_file).split(".")[0]\<close> with POSIX paths: what follows the
  last slash, up to its first dot.
\<close>

definition basename :: "string \<Rightarrow> string" where
  "basename p = rev (takeWhile (\<lambda>c. c \<noteq> CHR ''/'') (rev p))"

definition document_name_of :: "string \<Rightarrow> string" where
  "document_name_of input_file = takeWhile (\<lambda>c. c \<noteq> CHR ''.'') (basename input_file)"

text \<open>
  \<^verbatim>\<open>executor.map(load_document, document_names)\<close> yields the results in the order of
  \<^verbatim>\<open>document_names\<close> and, where a call raised, raises that exception when the loop
  reaches its result. The calls do not depend on each other, so the pool is modelled
  by \<open>map\<close> and the loop by a recursion over the results with the dict built so far.
\<close>

subsection \<open>endpoint.py\<close>

text \<open>
  \<open>safe_load\<close> stands for opening the file at a path and running \<^verbatim>\<open>yaml.safe_load\<close> on
  it: the parsed value, or the exception raised on malformed input.
\<close>

definition read_yaml_file ::
  "(string \<Rightarrow> py_exception + 'a pyval) \<Rightarrow> string \<Rightarrow> py_exception + 'a pyval" where
  "read_yaml_file safe_load input_file =
     and_then (safe_load input_file) (\<lambda>example_content.
       Inr (transform_data example_content))"

definition endpoint_load_document ::
  "(string \<Rightarrow> py_exception + 'a pyval) \<Rightarrow> string \<Rightarrow> py_exception + string \<times> 'a pyval" where
  "endpoint_load_document safe_load input_file =
     and_then (read_yaml_file safe_load input_file) (\<lambda>document_content.
       Inr (document_name_of input_file, document_content))"

fun endpoint_collect ::
  "(py_exception + string \<times> 'a pyval) list \<Rightarrow> 'a store \<Rightarrow> py_exception + 'a store" where
  "endpoint_collect [] loaded_documents = Inr loaded_documents"
| "endpoint_collect (Inl e # results) loaded_documents = Inl e"
| "endpoint_collect (Inr (document_name, content) # results) loaded_documents =
     endpoint_collect results (AList.update document_name content loaded_documents)"

text \<open>The module-level load; \<open>glob\<close> is \<^verbatim>\<open>glob.glob\<close> on the file system at start-up.\<close>

definition endpoint_loaded_documents ::
  "(string \<Rightarrow> string list) \<Rightarrow> (string \<Rightarrow> py_exception + 'a pyval) \<Rightarrow>
     py_exception + 'a store" where
  "endpoint_loaded_documents glob safe_load =
     (let document_names = glob ''yml/*.yml''
      in endpoint_collect (map (endpoint_load_document safe_load) document_names) [])"

subsection \<open>routes/user_document.py\<close>

text \<open>
  Here \<^verbatim>\<open>read_yaml_file\<close> is imported from \<^verbatim>\<open>documentHandler\<close>; it is the argument
  \<open>imported_read\<close>: for a path it returns a value (possibly \<^verbatim>\<open>None\<close>) or raises.
\<close>

definition load_document ::
  "(string \<Rightarrow> py_exception + 'a pyval) \<Rightarrow> string \<Rightarrow>
     py_exception + (string \<times> 'a pyval) option" where
  "load_document imported_read input_file =
     and_then (imported_read input_file) (\<lambda>document_content.
       if document_content = PLeaf LNone then Inr None
       else Inr (Some (document_name_of input_file, document_content)))"

fun populate_collect ::
  "(py_exception + (string \<times> 'a pyval) option) list \<Rightarrow> 'a store \<Rightarrow>
     py_exception + 'a store" where
  "populate_collect [] loaded_documents = Inr loaded_documents"
| "populate_collect (Inl e # results) loaded_documents = Inl e"
| "populate_collect (Inr None # results) loaded_documents =
     populate_collect results loaded_documents"
| "populate_collect (Inr (Some (document_name, content)) # results) loaded_documents =
     populate_collect results (AList.update document_name content loaded_documents)"

definition populate_loaded_documents ::
  "(string \<Rightarrow> string list) \<Rightarrow> (string \<Rightarrow> py_exception + 'a pyval) \<Rightarrow> string \<Rightarrow>
     py_exception + 'a store" where
  "populate_loaded_documents glob imported_read directory =
     (let document_names = glob (directory @ ''/*.yml'')
      in populate_collect (map (load_document imported_read) document_names) [])"

section \<open>Notions used in the statements\<close>

definition ends_with_newline :: "string \<Rightarrow> bool" where
  "ends_with_newline s = (s \<noteq> [] \<and> last s = CHR 0x0A)"

text \<open>
  Every str of a value, at any depth: the keys and values of dicts, the elements of
  lists, and what tuples and sets hold.
\<close>

fun leaf_strings :: "'a leaf \<Rightarrow> string set" where
  "leaf_strings (LStr s) = {s}"
| "leaf_strings x = {}"

primrec strings_of :: "'a pyval \<Rightarrow> string set" where
  "strings_of (PDict kvs) =
     \<Union>(set (map (\<lambda>kv. leaf_strings (fst kv) \<union> snd kv) (map (map_prod id strings_of) kvs)))"
| "strings_of (PList xs) = \<Union>(set (map strings_of xs))"
| "strings_of (PTuple xs) = \<Union>(set (map strings_of xs))"
| "strings_of (PSet S) = \<Union>(leaf_strings ` fset S)"
| "strings_of (PLeaf x) = leaf_strings x"

text \<open>
  The strs of a value that are reached through dicts and lists alone: a key or a value
  of a dict, an element of a list, at any depth, but nothing inside a tuple or a set.
\<close>

primrec visited_strings :: "'a pyval \<Rightarrow> string set" where
  "visited_strings (PDict kvs) =
     \<Union>(set (map (\<lambda>kv. leaf_strings (fst kv) \<union> snd kv)
               (map (map_prod id visited_strings) kvs)))"
| "visited_strings (PList xs) = \<Union>(set (map visited_strings xs))"
| "visited_strings (PTuple xs) = {}"
| "visited_strings (PSet S) = {}"
| "visited_strings (PLeaf x) = leaf_strings x"

text \<open>
  The non-string leaves of a value, in the order a walk through its dicts (key, then
  value) and lists meets them: every value met that is neither a dict, a list nor a
  str. A tuple and a set count as one such value each.
\<close>

fun leaf_others :: "'a leaf \<Rightarrow> 'a pyval list" where
  "leaf_others (LStr s) = []"
| "leaf_others x = [PLeaf x]"

primrec other_leaves :: "'a pyval \<Rightarrow> 'a pyval list" where
  "other_leaves (PDict kvs) =
     concat (map (\<lambda>kv. leaf_others (fst kv) @ snd kv) (map (map_prod id other_leaves) kvs))"
| "other_leaves (PList xs) = concat (map other_leaves xs)"
| "other_leaves (PTuple xs) = [PTuple xs]"
| "other_leaves (PSet S) = [PSet S]"
| "other_leaves (PLeaf x) = leaf_others x"

text \<open>
  No dict of the value, at any depth of dicts and lists, has two keys that stripping
  makes equal (such as \<^verbatim>\<open>"a\n"\<close> and \<^verbatim>\<open>"a"\<close>).
\<close>

primrec collision_free :: "'a pyval \<Rightarrow> bool" where
  "collision_free (PDict kvs) =
     (distinct (map (\<lambda>kv. transform_leaf (fst kv)) kvs) \<and>
      list_all snd (map (map_prod id collision_free) kvs))"
| "collision_free (PList xs) = list_all id (map collision_free xs)"
| "collision_free (PTuple xs) = True"
| "collision_free (PSet S) = True"
| "collision_free (PLeaf x) = True"

text \<open>
  A value the transform has nothing left to do on: every str it would visit is stripped
  and the keys of every dict it would visit are pairwise different.
\<close>

primrec trimmed :: "'a pyval \<Rightarrow> bool" where
  "trimmed (PDict kvs) =
     (distinct (map fst kvs) \<and>
      list_all (\<lambda>kv. transform_leaf (fst kv) = fst kv \<and> snd kv) (map (map_prod id trimmed) kvs))"
| "trimmed (PList xs) = list_all id (map trimmed xs)"
| "trimmed (PTuple xs) = True"
| "trimmed (PSet S) = True"
| "trimmed (PLeaf x) = (transform_leaf x = x)"

text \<open>Storing items into a dict that already holds some.\<close>

definition dict_add :: "('k \<times> 'v) list \<Rightarrow> ('k \<times> 'v) list \<Rightarrow> ('k \<times> 'v) list" where
  "dict_add items d = fold (\<lambda>kv d. AList.update (fst kv) (snd kv) d) items d"

section \<open>Example data\<close>

text \<open>
  The scenario of the specification: \<^verbatim>\<open>yml/policy_a.yml\<close> as parsed, with the trailing
  newline a block scalar leaves in \<^verbatim>\<open>purpose\<close>, and as stored after the transform.
\<close>

definition example_raw :: "unit pyval" where
  "example_raw = PDict
     [(LStr ''type'', PLeaf (LStr ''SOP'')),
      (LStr ''document_no'', PLeaf (LStr ''001'')),
      (LStr ''title'', PLeaf (LStr ''Access Control'')),
      (LStr ''document_code'', PLeaf (LStr ''AC-1'')),
      (LStr ''effective_date'', PLeaf (LStr ''2024-01-01'')),
      (LStr ''document_rev'', PLeaf (LStr ''1'')),
      (LStr ''purpose'', PList [PLeaf (LStr ''control access\<newline>'')]),
      (LStr ''revision_history'', PList []),
      (LStr ''prepared_by'', PList []),
      (LStr ''reviewed_approved_by'', PList [])]"

definition example_document :: "unit pyval" where
  "example_document = PDict
     [(LStr ''type'', PLeaf (LStr ''SOP'')),
      (LStr ''document_no'', PLeaf (LStr ''001'')),
      (LStr ''title'', PLeaf (LStr ''Access Control'')),
      (LStr ''document_code'', PLeaf (LStr ''AC-1'')),
      (LStr ''effective_date'', PLeaf (LStr ''2024-01-01'')),
      (LStr ''document_rev'', PLeaf (LStr ''1'')),
      (LStr ''purpose'', PList [PLeaf (LStr ''control access'')]),
      (LStr ''revision_history'', PList []),
      (LStr ''prepared_by'', PList []),
      (LStr ''reviewed_approved_by'', PList [])]"

definition example_store :: "unit store" where
  "example_store = [(''policy_a'', example_document)]"

definition example_glob :: "string \<Rightarrow> string list" where
  "example_glob pattern = (if pattern = ''yml/*.yml'' then [''yml/policy_a.yml''] else [])"

definition example_safe_load :: "string \<Rightarrow> py_exception + unit pyval" where
  "example_safe_load path =
     (if path = ''yml/policy_a.yml'' then Inr example_raw else Inl YAMLError)"

text \<open>A directory with a second file that does not parse.\<close>

definition broken_glob :: "string \<Rightarrow> string list" where
  "broken_glob pattern =
     (if pattern = ''yml/*.yml'' then [''yml/policy_a.yml'', ''yml/broken.yml''] else [])"

text \<open>A reader for that directory that returns \<^verbatim>\<open>None\<close> for the file that does not parse.\<close>

definition lenient_read :: "string \<Rightarrow> py_exception + unit pyval" where
  "lenient_read path =
     (if path = ''yml/policy_a.yml'' then Inr example_document else Inr (PLeaf LNone))"

text \<open>A directory with two files of the same derived name.\<close>

definition duplicate_glob :: "string \<Rightarrow> string list" where
  "duplicate_glob pattern =
     (if pattern = ''yml/*.yml'' then [''yml/policy_a.v1.yml'', ''yml/policy_a.v2.yml'']
      else [])"

definition duplicate_read :: "string \<Rightarrow> py_exception + unit pyval" where
  "duplicate_read path =
     (if path = ''yml/policy_a.v1.yml''
      then Inr (PDict [(LStr ''title'', PLeaf (LStr ''first''))])
      else if path = ''yml/policy_a.v2.yml''
      then Inr (PDict [(LStr ''title'', PLeaf (LStr ''second\<newline>''))])
      else Inl YAMLError)"

text \<open>A store whose only document has a single section.\<close>

definition short_store :: "unit store" where
  "short_store = [(''memo'', PDict [(LStr ''title'', PLeaf (LStr ''Memo''))])]"

text \<open>
  A directory whose only file is empty: \<^verbatim>\<open>yaml.safe_load\<close> returns \<^verbatim>\<open>None\<close> for it.
\<close>

definition empty_glob :: "string \<Rightarrow> string list" where
  "empty_glob pattern = (if pattern = ''yml/*.yml'' then [''yml/empty.yml''] else [])"

definition empty_safe_load :: "string \<Rightarrow> py_exception + unit pyval" where
  "empty_safe_load path = Inr (PLeaf LNone)"

definition empty_store :: "unit store" where
  "empty_store = [(''empty'', PLeaf LNone)]"

text \<open>A directory whose only file holds a YAML sequence of two strings.\<close>

definition notes_glob :: "string \<Rightarrow> string list" where
  "notes_glob pattern = (if pattern = ''yml/*.yml'' then [''yml/notes.yml''] else [])"

definition notes_safe_load :: "string \<Rightarrow> py_exception + unit pyval" where
  "notes_safe_load path = Inr (PList [PLeaf (LStr ''purpose''), PLeaf (LStr ''scope'')])"

definition notes_store :: "unit store" where
  "notes_store = [(''notes'', PList [PLeaf (LStr ''purpose''), PLeaf (LStr ''scope'')])]"

text \<open>
  A directory with two files. \<^verbatim>\<open>steps.yml\<close> holds a \<^verbatim>\<open>!!pairs\<close> section whose one pair
  has a block scalar as its value; \<^verbatim>\<open>codes.yml\<close> is a mapping with the two keys
  \<^verbatim>\<open>"a\n"\<close> and \<^verbatim>\<open>"a"\<close>.
\<close>

definition steps_raw :: "nat pyval" where
  "steps_raw = PDict
     [(LStr ''title'', PLeaf (LStr ''Steps'')),
      (LStr ''steps'',
         PList [PTuple [PLeaf (LStr ''first''), PLeaf (LStr ''do this\<newline>'')]])]"

definition codes_raw :: "nat pyval" where
  "codes_raw = PDict
     [(LStr ''a\<newline>'', PLeaf (LOther 1)),
      (LStr ''a'', PLeaf (LOther 2))]"

definition odd_glob :: "string \<Rightarrow> string list" where
  "odd_glob pattern =
     (if pattern = ''yml/*.yml'' then [''yml/steps.yml'', ''yml/codes.yml''] else [])"

definition odd_safe_load :: "string \<Rightarrow> py_exception + nat pyval" where
  "odd_safe_load path =
     (if path = ''yml/steps.yml'' then Inr steps_raw
      else if path = ''yml/codes.yml'' then Inr codes_raw
      else Inl YAMLError)"

definition odd_store :: "nat store" where
  "odd_store =
     [(''steps'', steps_raw),
      (''codes'', PDict [(LStr ''a'', PLeaf (LOther 2))])]"

section \<open>Basic facts\<close>

lemma and_then_Inr [simp]: "and_then (Inr x) f = f x"
  by (simp add: and_then_def)

lemma and_then_Inl [simp]: "and_then (Inl e) f = Inl e"
  by (simp add: and_then_def)

subsection \<open>Stripping\<close>

lemma rstrip_newline_no_trailing: "\<not> ends_with_newline (rstrip_newline s)"
proof (cases "dropWhile (\<lambda>c. c = CHR 0x0A) (rev s)")
  case Nil
  then show ?thesis by (simp add: rstrip_newline_def ends_with_newline_def)
next
  case (Cons a r)
  then have "a \<noteq> CHR 0x0A"
    using hd_dropWhile [of "\<lambda>c. c = CHR 0x0A" "rev s"] by auto
  with Cons show ?thesis by (simp add: rstrip_newline_def ends_with_newline_def)
qed

lemma rstrip_newline_fixed: "\<not> ends_with_newline s \<Longrightarrow> rstrip_newline s = s"
  by (cases s rule: rev_cases) (auto simp: rstrip_newline_def ends_with_newline_def)

lemma rstrip_newline_idem: "rstrip_newline (rstrip_newline s) = rstrip_newline s"
  by (rule rstrip_newline_fixed) (rule rstrip_newline_no_trailing)

lemma transform_leaf_idem: "transform_leaf (transform_leaf x) = transform_leaf x"
  by (cases x) (simp_all add: rstrip_newline_idem)

lemma leaf_strings_transform:
  "s \<in> leaf_strings (transform_leaf x) \<Longrightarrow> \<not> ends_with_newline s"
  by (cases x) (auto simp: rstrip_newline_no_trailing)

lemma leaf_others_transform: "leaf_others (transform_leaf x) = leaf_others x"
  by (cases x) auto

subsection \<open>Building a dict\<close>

lemma distinct_dict_add: "distinct (map fst d) \<Longrightarrow> distinct (map fst (dict_add its d))"
  by (induction its arbitrary: d) (simp_all add: dict_add_def distinct_update)

lemma update_fresh: "k \<notin> fst ` set d \<Longrightarrow> AList.update k v d = d @ [(k, v)]"
  by (induction d) auto

lemma dict_add_fresh: "distinct (map fst (d @ its)) \<Longrightarrow> dict_add its d = d @ its"
proof (induction its arbitrary: d)
  case Nil
  then show ?case by (simp add: dict_add_def)
next
  case (Cons kv its)
  then have "fst kv \<notin> fst ` set d" by auto
  then have "AList.update (fst kv) (snd kv) d = d @ [kv]"
    by (simp add: update_fresh)
  moreover have "dict_add its (d @ [kv]) = (d @ [kv]) @ its"
    using Cons.prems by (intro Cons.IH) simp
  ultimately show ?case by (simp add: dict_add_def)
qed

lemma set_update_subset: "set (AList.update k v d) \<subseteq> insert (k, v) (set d)"
  by (induction d) auto

lemma set_dict_add: "set (dict_add its d) \<subseteq> set d \<union> set its"
proof (induction its arbitrary: d)
  case Nil
  then show ?case by (simp add: dict_add_def)
next
  case (Cons kv its)
  have "set (dict_add its (AList.update (fst kv) (snd kv) d))
          \<subseteq> set (AList.update (fst kv) (snd kv) d) \<union> set its"
    by (rule Cons.IH)
  also have "\<dots> \<subseteq> insert kv (set d) \<union> set its"
    using set_update_subset [of "fst kv" "snd kv" d] by auto
  finally show ?case by (auto simp: dict_add_def)
qed

lemma dict_of_items_distinct: "distinct (map fst (dict_of_items its))"
  using distinct_dict_add [of "[]" its] by (simp add: dict_of_items_def dict_add_def)

lemma dict_of_items_fresh: "distinct (map fst its) \<Longrightarrow> dict_of_items its = its"
  using dict_add_fresh [of "[]" its] by (simp add: dict_of_items_def dict_add_def)

lemma set_dict_of_items: "set (dict_of_items its) \<subseteq> set its"
  using set_dict_add [of its "[]"] by (simp add: dict_of_items_def dict_add_def)

subsection \<open>The transform\<close>

lemma trimmed_fixed: "trimmed x \<Longrightarrow> transform_data x = x"
proof (induction x)
  case (PLeaf x)
  then show ?case by simp
next
  case (PList xs)
  then have "map transform_data xs = xs"
    by (intro map_idI) (auto simp: list_all_iff)
  then show ?case by simp
next
  case (PDict kvs)
  have "map (map_prod transform_leaf transform_data) kvs = kvs"
  proof (rule map_idI)
    fix kv assume "kv \<in> set kvs"
    moreover obtain k v where "kv = (k, v)" by (cases kv)
    ultimately show "map_prod transform_leaf transform_data kv = kv"
      using PDict.IH [of kv v] PDict.prems by (auto simp: list_all_iff)
  qed
  with PDict.prems show ?case by (simp add: dict_of_items_fresh)
next
  case (PTuple xs)
  show ?case by simp
next
  case (PSet S)
  show ?case by simp
qed

lemma trimmed_transform_data: "trimmed (transform_data x)"
proof (induction x)
  case (PLeaf x)
  then show ?case by (simp add: transform_leaf_idem)
next
  case (PList xs)
  then show ?case by (auto simp: list_all_iff)
next
  case (PDict kvs)
  let ?its = "map (map_prod transform_leaf transform_data) kvs"
  have "transform_leaf (fst kv) = fst kv \<and> trimmed (snd kv)"
    if "kv \<in> set (dict_of_items ?its)" for kv
  proof -
    from that set_dict_of_items [of ?its] have "kv \<in> set ?its" by auto
    then obtain k v where "(k, v) \<in> set kvs" "kv = (transform_leaf k, transform_data v)"
      by auto
    with PDict show ?thesis by (auto simp: transform_leaf_idem)
  qed
  then show ?case by (auto simp: list_all_iff dict_of_items_distinct)
next
  case (PTuple xs)
  show ?case by simp
next
  case (PSet S)
  show ?case by simp
qed

lemma visited_strings_transform_data:
  "s \<in> visited_strings (transform_data x) \<Longrightarrow> \<not> ends_with_newline s"
proof (induction x arbitrary: s)
  case (PLeaf x)
  then show ?case by (simp add: leaf_strings_transform)
next
  case (PList xs)
  then show ?case by auto
next
  case (PDict kvs)
  let ?its = "map (map_prod transform_leaf transform_data) kvs"
  from PDict.prems obtain kv where kv: "kv \<in> set (dict_of_items ?its)"
    and s: "s \<in> leaf_strings (fst kv) \<or> s \<in> visited_strings (snd kv)"
    by auto
  from kv set_dict_of_items [of ?its] have "kv \<in> set ?its" by auto
  then obtain k v where kv': "(k, v) \<in> set kvs" "kv = (transform_leaf k, transform_data v)"
    by auto
  from s show ?case
  proof
    assume "s \<in> leaf_strings (fst kv)"
    with kv' show ?thesis by (simp add: leaf_strings_transform)
  next
    assume "s \<in> visited_strings (snd kv)"
    with kv' PDict.IH [of "(k, v)" v s] show ?thesis by simp
  qed
next
  case (PTuple xs)
  then show ?case by simp
next
  case (PSet S)
  then show ?case by simp
qed

lemma other_leaves_transform_data:
  "set (other_leaves (transform_data x)) \<subseteq> set (other_leaves x)"
proof (induction x)
  case (PLeaf x)
  then show ?case by (simp add: leaf_others_transform)
next
  case (PList xs)
  then show ?case by auto
next
  case (PDict kvs)
  let ?its = "map (map_prod transform_leaf transform_data) kvs"
  show ?case
  proof
    fix l assume "l \<in> set (other_leaves (transform_data (PDict kvs)))"
    then obtain kv where kv: "kv \<in> set (dict_of_items ?its)"
      and l: "l \<in> set (leaf_others (fst kv)) \<or> l \<in> set (other_leaves (snd kv))"
      by auto
    from kv set_dict_of_items [of ?its] have "kv \<in> set ?its" by auto
    then obtain k v where kv': "(k, v) \<in> set kvs" "kv = (transform_leaf k, transform_data v)"
      by auto
    from l have "l \<in> set (leaf_others k) \<or> l \<in> set (other_leaves v)"
      using kv' PDict.IH [of "(k, v)" v] by (auto simp: leaf_others_transform)
    with kv'(1) show "l \<in> set (other_leaves (PDict kvs))"
      by force
  qed
next
  case (PTuple xs)
  show ?case by simp
next
  case (PSet S)
  show ?case by simp
qed

text \<open>
  Without colliding keys the transform keeps every non-string leaf, in its place.
\<close>

lemma other_leaves_collision_free:
  "collision_free x \<Longrightarrow> other_leaves (transform_data x) = other_leaves x"
proof (induction x)
  case (PLeaf x)
  then show ?case by (simp add: leaf_others_transform)
next
  case (PList xs)
  have "map (\<lambda>x. other_leaves (transform_data x)) xs = map other_leaves xs"
  proof (rule map_cong [OF refl])
    fix x assume "x \<in> set xs"
    with PList show "other_leaves (transform_data x) = other_leaves x"
      by (auto simp: list_all_iff)
  qed
  then show ?case
    by (simp only: transform_data.simps other_leaves.simps map_map comp_def)
next
  case (PDict kvs)
  let ?its = "map (map_prod transform_leaf transform_data) kvs"
  have "distinct (map fst ?its)"
    using PDict.prems by (simp add: comp_def)
  then have its: "dict_of_items ?its = ?its"
    by (rule dict_of_items_fresh)
  have m: "map (\<lambda>kv. leaf_others (transform_leaf (fst kv)) @ other_leaves (transform_data (snd kv))) kvs
      = map (\<lambda>kv. leaf_others (fst kv) @ other_leaves (snd kv)) kvs"
  proof (rule map_cong [OF refl])
    fix kv assume kv: "kv \<in> set kvs"
    obtain k v where eq: "kv = (k, v)" by (cases kv)
    from kv eq PDict.prems have "collision_free v"
      by (auto simp: list_all_iff)
    with kv eq PDict.IH [of kv v] have "other_leaves (transform_data v) = other_leaves v"
      by simp
    with eq show "leaf_others (transform_leaf (fst kv)) @ other_leaves (transform_data (snd kv))
        = leaf_others (fst kv) @ other_leaves (snd kv)"
      by (simp add: leaf_others_transform)
  qed
  have "other_leaves (transform_data (PDict kvs)) =
      concat (map (\<lambda>kv. leaf_others (transform_leaf (fst kv)) @
                         other_leaves (transform_data (snd kv))) kvs)"
    by (simp add: its comp_def)
  also have "\<dots> = concat (map (\<lambda>kv. leaf_others (fst kv) @ other_leaves (snd kv)) kvs)"
    by (simp only: m)
  also have "\<dots> = other_leaves (PDict kvs)"
    by (simp add: comp_def)
  finally show ?case .
next
  case (PTuple xs)
  show ?case by simp
next
  case (PSet S)
  show ?case by simp
qed

subsection \<open>Inserting into a list\<close>

lemma length_list_insert: "length (list_insert i x xs) = Suc (length xs)"
  by (simp add: list_insert_def)

lemma set_list_insert: "set (list_insert i x xs) = insert x (set xs)"
proof -
  have "set (take i xs) \<union> set (drop i xs) = set xs"
    by (metis append_take_drop_id set_append)
  then show ?thesis by (auto simp: list_insert_def)
qed




subsection \<open>The handlers\<close>

lemma check_document_loaded_absent:
  "d \<notin> fst ` set store \<Longrightarrow>
     check_document_loaded d store =
       Inl (HTTPException 404 (''Document '' @ d @ ''.yml not found''))"
  by (simp add: check_document_loaded_def map_of_eq_None_iff [symmetric]
        del: map_of_eq_None_iff)

lemma check_document_loaded_present:
  "map_of store d = Some content \<Longrightarrow> check_document_loaded d store = Inr content"
  by (simp add: check_document_loaded_def)

lemma section_not_found_names:
  "sublist section (section_not_found section document) \<and>
   sublist document (section_not_found section document)"
proof -
  have "sublist section ((''Section '' @ [CHR 0x27]) @ section @ [CHR 0x27] @
          '' doesn't exist in '' @ document @ ''.yml'')"
    by (rule sublist_appendI)
  moreover have "sublist document ((''Section '' @ [CHR 0x27] @ section @ [CHR 0x27] @
          '' doesn't exist in '') @ document @ ''.yml'')"
    by (rule sublist_appendI)
  ultimately show ?thesis by (simp only: section_not_found_def append_assoc)
qed

lemma sections_of_dict:
  "map_of store d = Some (PDict kvs) \<Longrightarrow>
     get_document_content_sections store d =
       Inr (list_insert 10 (LStr ''document_control'')
             (list_insert 6 (LStr ''metadata'') (map fst kvs)))"
  by (simp add: get_document_content_sections_def check_document_loaded_present)

lemma metadata_missing_type:
  "map_of store d = Some (PDict kvs) \<Longrightarrow> map_of kvs (LStr ''type'') = None \<Longrightarrow>
     get_document_content_metadata store d = Inl (KeyError ''type'')"
  by (simp add: get_document_content_metadata_def check_document_loaded_present)

subsection \<open>The load loops\<close>

lemma endpoint_load_document_ok:
  "safe_load g = Inr v \<Longrightarrow>
     endpoint_load_document safe_load g = Inr (document_name_of g, transform_data v)"
  by (simp add: endpoint_load_document_def read_yaml_file_def)

lemma endpoint_load_document_Inr:
  "endpoint_load_document safe_load f = Inr (d, c) \<longleftrightarrow>
     document_name_of f = d \<and> (\<exists>v. safe_load f = Inr v \<and> c = transform_data v)"
  by (cases "safe_load f") (auto simp: endpoint_load_document_def read_yaml_file_def)

lemma load_document_ok:
  "imported_read g = Inr v \<Longrightarrow>
     load_document imported_read g =
       Inr (if v = PLeaf LNone then None else Some (document_name_of g, v))"
  by (simp add: load_document_def)

lemma endpoint_collect_origin:
  "endpoint_collect results loaded = Inr store \<Longrightarrow> map_of store d = Some c \<Longrightarrow>
     map_of loaded d = Some c \<or> Inr (d, c) \<in> set results"
proof (induction results loaded rule: endpoint_collect.induct)
  case (1 loaded)
  then show ?case by simp
next
  case (2 e results loaded)
  then show ?case by simp
next
  case (3 n content results loaded)
  then have "map_of (AList.update n content loaded) d = Some c \<or> Inr (d, c) \<in> set results"
    by simp
  then show ?case
    by (auto simp: update_conv' split: if_splits)
qed

lemma endpoint_collect_raises:
  "Inl e \<in> set results \<Longrightarrow> \<exists>e'. endpoint_collect results loaded = Inl e'"
  by (induction results loaded rule: endpoint_collect.induct) auto

lemma endpoint_collect_populate:
  "endpoint_collect rs loaded = populate_collect (map (map_sum id Some) rs) loaded"
  by (induction rs loaded rule: endpoint_collect.induct) simp_all

lemma populate_collect_append:
  "populate_collect (rs1 @ rs2) loaded =
     and_then (populate_collect rs1 loaded) (populate_collect rs2)"
  by (induction rs1 loaded rule: populate_collect.induct) simp_all

lemma populate_collect_total:
  "\<forall>r\<in>set rs. \<exists>x. r = Inr x \<Longrightarrow> \<exists>store. populate_collect rs loaded = Inr store"
  by (induction rs loaded rule: populate_collect.induct) simp_all

lemma populate_collect_untouched:
  "populate_collect rs loaded = Inr store \<Longrightarrow> \<forall>c. Inr (Some (n, c)) \<notin> set rs \<Longrightarrow>
     map_of store n = map_of loaded n"
proof (induction rs loaded rule: populate_collect.induct)
  case (4 m content results loaded)
  then have "m \<noteq> n" by auto
  with 4 show ?case by (simp add: update_conv')
qed simp_all

lemma populate_collect_last:
  assumes ok: "\<forall>r\<in>set (pre @ post). \<exists>x. r = Inr x"
    and later: "\<forall>c'. Inr (Some (n, c')) \<notin> set post"
  shows "\<exists>store. populate_collect (pre @ Inr (Some (n, c)) # post) loaded = Inr store \<and>
           map_of store n = Some c"
proof -
  from ok obtain s1 where s1: "populate_collect pre loaded = Inr s1"
    using populate_collect_total [of pre loaded] by auto
  from ok obtain s2 where s2: "populate_collect post (AList.update n c s1) = Inr s2"
    using populate_collect_total [of post "AList.update n c s1"] by auto
  have "map_of s2 n = map_of (AList.update n c s1) n"
    using s2 later by (rule populate_collect_untouched)
  then have "map_of s2 n = Some c" by (simp add: update_conv')
  moreover have "populate_collect (pre @ Inr (Some (n, c)) # post) loaded = Inr s2"
    by (simp add: populate_collect_append s1 s2)
  ultimately show ?thesis by simp
qed

text \<open>
  The loop of \<^verbatim>\<open>populate_loaded_documents\<close> passes over a \<^verbatim>\<open>None\<close> result: the store is
  the one the other files give.
\<close>

lemma populate_collect_skip:
  "populate_collect (pre @ Inr None # post) loaded = populate_collect (pre @ post) loaded"
  by (cases "populate_collect pre loaded") (simp_all add: populate_collect_append)

lemma populate_skips_none_example:
  "populate_loaded_documents broken_glob lenient_read ''yml'' = Inr example_store"
  by (simp add: populate_loaded_documents_def broken_glob_def lenient_read_def
      load_document_def example_store_def example_document_def document_name_of_def
      basename_def)

text \<open>
  The module-level loop of endpoint.py has no such case: one file whose load raised
  makes the whole load raise.
\<close>

lemma endpoint_load_raises:
  assumes "f \<in> set (glob ''yml/*.yml'')" and "safe_load f = Inl e"
  shows "\<exists>e'. endpoint_loaded_documents glob safe_load = Inl e'"
proof -
  have "endpoint_load_document safe_load f = Inl e"
    using assms(2) by (simp add: endpoint_load_document_def read_yaml_file_def)
  then have "Inl e \<in> set (map (endpoint_load_document safe_load) (glob ''yml/*.yml''))"
    using assms(1) by force
  then show ?thesis
    unfolding endpoint_loaded_documents_def Let_def by (rule endpoint_collect_raises)
qed

section \<open>The claims\<close>

text \<open>
  Claim C10. The recursive newline-trimming transform is idempotent: for any nesting of
  dicts, lists, strings and other scalars, applying \<^verbatim>\<open>transform_data\<close> to its own result
  gives that result again.
\<close>

theorem transform_data_idempotent: "transform_data (transform_data x) = transform_data x"
  by (rule trimmed_fixed) (rule trimmed_transform_data)

text \<open>
  Claim C1. For a document name that is not a key of the store, each of the five
  per-document handlers (document, sections, metadata, document control, section)
  raises the 404 \<open>HTTPException\<close> of \<^verbatim>\<open>check_document_loaded\<close>, whatever the section
  asked for; none returns a value.
\<close>

theorem absent_document_not_found:
  assumes "d \<notin> fst ` set store"
  shows "get_document_content store d =
           Inl (HTTPException 404 (''Document '' @ d @ ''.yml not found'')) \<and>
         get_document_content_sections store d =
           Inl (HTTPException 404 (''Document '' @ d @ ''.yml not found'')) \<and>
         get_document_content_metadata store d =
           Inl (HTTPException 404 (''Document '' @ d @ ''.yml not found'')) \<and>
         get_document_document_control store d =
           Inl (HTTPException 404 (''Document '' @ d @ ''.yml not found'')) \<and>
         get_document_content_section store d s =
           Inl (HTTPException 404 (''Document '' @ d @ ''.yml not found''))"
  by (simp add: check_document_loaded_absent [OF assms] get_document_content_def
        get_document_content_sections_def get_document_content_metadata_def
        get_document_document_control_def get_document_content_section_def)

theorem absent_document_not_found_witness:
  "''unknown_doc'' \<notin> fst ` set example_store \<and>
   get_document_content example_store ''unknown_doc'' =
     Inl (HTTPException 404 ''Document unknown_doc.yml not found'') \<and>
   get_document_content_sections example_store ''unknown_doc'' =
     Inl (HTTPException 404 ''Document unknown_doc.yml not found'') \<and>
   get_document_content_metadata example_store ''unknown_doc'' =
     Inl (HTTPException 404 ''Document unknown_doc.yml not found'') \<and>
   get_document_document_control example_store ''unknown_doc'' =
     Inl (HTTPException 404 ''Document unknown_doc.yml not found'') \<and>
   get_document_content_section example_store ''unknown_doc'' ''purpose'' =
     Inl (HTTPException 404 ''Document unknown_doc.yml not found'')"
proof -
  have h: "''unknown_doc'' \<notin> fst ` set example_store"
    by (simp add: example_store_def)
  show ?thesis
    using h absent_document_not_found [OF h, of "''purpose''"] by simp
qed

text \<open>
  Claim C2, as stated for every document of the store, fails on a stored document that
  is not a mapping. Both loads store a file that holds a YAML sequence as a list. Such a
  document has no top-level key, yet for a name that is one of its elements the section
  handler does not raise the 404 of a missing section: the membership test succeeds and
  the indexing that follows raises \<^verbatim>\<open>TypeError\<close>.
\<close>

theorem section_lookup_fails_on_list_document:
  "endpoint_loaded_documents notes_glob notes_safe_load = Inr notes_store \<and>
   populate_loaded_documents notes_glob notes_safe_load ''yml'' = Inr notes_store \<and>
   py_keys (PList [PLeaf (LStr ''purpose''), PLeaf (LStr ''scope'')] :: unit pyval) =
     Inl AttributeError \<and>
   get_document_content_section notes_store ''notes'' ''purpose'' = Inl TypeError"
  by (simp add: endpoint_loaded_documents_def populate_loaded_documents_def notes_glob_def
      notes_safe_load_def notes_store_def endpoint_load_document_def read_yaml_file_def
      load_document_def rstrip_newline_def document_name_of_def basename_def
      get_document_content_section_def check_document_loaded_def)

text \<open>
  Claim C2, amended. For a document of the store that is a mapping, the section handler
  returns the value stored under the top-level key \<open>s\<close>, the same value that indexing the
  result of the document handler with \<open>s\<close> gives, whenever \<open>s\<close> is a key; it raises a 404
  \<open>HTTPException\<close> exactly when \<open>s\<close> is not a key, and the message then holds both the
  section name and the document name.
\<close>

theorem section_lookup:
  assumes "map_of store d = Some (PDict kvs)"
  shows "(\<forall>v. map_of kvs (LStr s) = Some v \<longrightarrow>
            get_document_content_section store d s = Inr v \<and>
            and_then (get_document_content store d) (\<lambda>doc. py_getitem doc s) = Inr v) \<and>
         (LStr s \<notin> fst ` set kvs \<longrightarrow>
            (\<exists>detail.
               get_document_content_section store d s = Inl (HTTPException 404 detail) \<and>
               detail = ''Section '' @ [CHR 0x27] @ s @ [CHR 0x27] @
                        '' doesn't exist in '' @ d @ ''.yml'' \<and>
               sublist s detail \<and> sublist d detail)) \<and>
         ((\<exists>detail. get_document_content_section store d s = Inl (HTTPException 404 detail))
            \<longleftrightarrow> LStr s \<notin> fst ` set kvs)"
proof -
  have c: "check_document_loaded d store = Inr (PDict kvs)"
    using assms by (rule check_document_loaded_present)
  show ?thesis
  proof (cases "map_of kvs (LStr s)")
    case None
    then have absent: "LStr s \<notin> fst ` set kvs" by (simp add: map_of_eq_None_iff)
    with None show ?thesis
      using section_not_found_names [of s d]
      by (simp add: get_document_content_section_def c section_not_found_def)
  next
    case (Some v)
    then have "LStr s \<in> fst ` set kvs"
      by (metis map_of_eq_None_iff option.distinct(1))
    with Some show ?thesis
      by (simp add: get_document_content_section_def get_document_content_def c)
  qed
qed

theorem section_lookup_witness:
  "map_of example_store ''policy_a'' = Some example_document \<and>
   get_document_content_section example_store ''policy_a'' ''purpose'' =
     Inr (PList [PLeaf (LStr ''control access'')]) \<and>
   get_document_content_section example_store ''policy_a'' ''nope'' =
     Inl (HTTPException 404 ''Section 'nope' doesn't exist in policy_a.yml'')"
proof -
  have h: "map_of example_store ''policy_a'' =
      Some (PDict
     [(LStr ''type'', PLeaf (LStr ''SOP'')),
      (LStr ''document_no'', PLeaf (LStr ''001'')),
      (LStr ''title'', PLeaf (LStr ''Access Control'')),
      (LStr ''document_code'', PLeaf (LStr ''AC-1'')),
      (LStr ''effective_date'', PLeaf (LStr ''2024-01-01'')),
      (LStr ''document_rev'', PLeaf (LStr ''1'')),
      (LStr ''purpose'', PList [PLeaf (LStr ''control access'')]),
      (LStr ''revision_history'', PList []),
      (LStr ''prepared_by'', PList []),
      (LStr ''reviewed_approved_by'', PList [])])"
    by (simp add: example_store_def example_document_def)
  show ?thesis
    using section_lookup [OF h, of "''purpose''"] section_lookup [OF h, of "''nope''"]
    by (simp add: example_store_def example_document_def)
qed



text \<open>
  Claim C4. For a document of the store that is a mapping holding the six source
  fields, the metadata handler returns the mapping with exactly the six keys
  \<^verbatim>\<open>document_type\<close> (from \<^verbatim>\<open>type\<close>), \<^verbatim>\<open>document_no\<close>, \<^verbatim>\<open>effective_date\<close>, \<^verbatim>\<open>document_rev\<close>,
  \<^verbatim>\<open>title\<close> and \<^verbatim>\<open>document_code\<close>, each with the document's value, and nothing else.
\<close>

theorem metadata_projection:
  assumes "map_of store d = Some (PDict kvs)"
    and "map_of kvs (LStr ''type'') = Some v1"
    and "map_of kvs (LStr ''document_no'') = Some v2"
    and "map_of kvs (LStr ''effective_date'') = Some v3"
    and "map_of kvs (LStr ''document_rev'') = Some v4"
    and "map_of kvs (LStr ''title'') = Some v5"
    and "map_of kvs (LStr ''document_code'') = Some v6"
  shows "get_document_content_metadata store d = Inr (PDict
           [(LStr ''document_type'', v1),
            (LStr ''document_no'', v2),
            (LStr ''effective_date'', v3),
            (LStr ''document_rev'', v4),
            (LStr ''title'', v5),
            (LStr ''document_code'', v6)])"
  using assms
  by (simp add: get_document_content_metadata_def check_document_loaded_present)

theorem metadata_projection_witness:
  "get_document_content_metadata example_store ''policy_a'' = Inr (PDict
     [(LStr ''document_type'', PLeaf (LStr ''SOP'')),
      (LStr ''document_no'', PLeaf (LStr ''001'')),
      (LStr ''effective_date'', PLeaf (LStr ''2024-01-01'')),
      (LStr ''document_rev'', PLeaf (LStr ''1'')),
      (LStr ''title'', PLeaf (LStr ''Access Control'')),
      (LStr ''document_code'', PLeaf (LStr ''AC-1''))])"
proof -
  have h: "map_of example_store ''policy_a'' =
      Some (PDict
     [(LStr ''type'', PLeaf (LStr ''SOP'')),
      (LStr ''document_no'', PLeaf (LStr ''001'')),
      (LStr ''title'', PLeaf (LStr ''Access Control'')),
      (LStr ''document_code'', PLeaf (LStr ''AC-1'')),
      (LStr ''effective_date'', PLeaf (LStr ''2024-01-01'')),
      (LStr ''document_rev'', PLeaf (LStr ''1'')),
      (LStr ''purpose'', PList [PLeaf (LStr ''control access'')]),
      (LStr ''revision_history'', PList []),
      (LStr ''prepared_by'', PList []),
      (LStr ''reviewed_approved_by'', PList [])])"
    by (simp add: example_store_def example_document_def)
  show ?thesis
    by (rule metadata_projection [OF h]) simp_all
qed

text \<open>
  Claim C5, at an input where the code departs from it. The claim: a file that fails
  to deserialize is skipped and the other files are still loaded, no exception
  escaping the load phase. The load of routes/user_document.py does pass over a
  \<^verbatim>\<open>None\<close> result (\<open>populate_collect_skip\<close>, \<open>populate_skips_none_example\<close>). The load of
  endpoint.py does not: \<^verbatim>\<open>read_yaml_file\<close> lets the parser's exception through, and with
  one well-formed and one malformed file the whole load ends in that exception, the
  well-formed document lost with it.
\<close>

theorem malformed_file_aborts_endpoint_load:
  "endpoint_loaded_documents broken_glob example_safe_load = Inl YAMLError"
  by (simp add: endpoint_loaded_documents_def broken_glob_def example_safe_load_def
      endpoint_load_document_def read_yaml_file_def)

text \<open>
  Claim C6, at an input where the code departs from it. The claim: a stored document
  that lacks one of the six metadata source fields makes the metadata handler fail
  like a lookup of an unknown document, with status 404 and no uncaught fault. The
  handler indexes the document without a check, unlike the section handler: for a
  document with only a \<^verbatim>\<open>title\<close> it raises \<^verbatim>\<open>KeyError('type')\<close>, which is not an
  \<open>HTTPException\<close>.
\<close>

theorem metadata_missing_field_raises_keyerror:
  "get_document_content_metadata short_store ''memo'' = Inl (KeyError ''type'')"
  by (simp add: get_document_content_metadata_def check_document_loaded_def short_store_def)

text \<open>
  Claim C7, as stated, fails in two ways. The transform enters dicts and lists only: a
  tuple takes its \<^verbatim>\<open>else\<close> branch, so the block scalar inside the \<^verbatim>\<open>!!pairs\<close> section of
  \<^verbatim>\<open>steps.yml\<close> is served with its trailing newline. And when stripping makes two keys of
  one dict equal, the rebuilt dict keeps one entry: of the non-string leaves \<^verbatim>\<open>1\<close> and \<^verbatim>\<open>2\<close>
  of \<^verbatim>\<open>codes.yml\<close> only \<^verbatim>\<open>2\<close> is served.
\<close>

theorem trailing_newline_survives_in_tuple:
  "endpoint_loaded_documents odd_glob odd_safe_load = Inr odd_store \<and>
   get_document_content odd_store ''steps'' = Inr steps_raw \<and>
   ''do this\<newline>'' \<in> strings_of steps_raw \<and>
   ends_with_newline ''do this\<newline>'' \<and>
   get_document_content odd_store ''codes'' = Inr (PDict [(LStr ''a'', PLeaf (LOther 2))]) \<and>
   other_leaves codes_raw = [PLeaf (LOther 1), PLeaf (LOther 2)] \<and>
   other_leaves (PDict [(LStr ''a'', PLeaf (LOther 2))] :: nat pyval) = [PLeaf (LOther 2)]"
  by (simp add: endpoint_loaded_documents_def odd_glob_def odd_safe_load_def odd_store_def
      steps_raw_def codes_raw_def endpoint_load_document_def read_yaml_file_def
      dict_of_items_def rstrip_newline_def document_name_of_def basename_def
      get_document_content_def check_document_loaded_def ends_with_newline_def)

text \<open>
  Claim C7, amended. After the load of endpoint.py, the document handler returns for
  every name of the store the stored content, which is the parsed content of a globbed
  file of that derived name after \<^verbatim>\<open>transform_data\<close>. No str of it that is a key or a value
  of a dict or an element of a list, at any depth of dicts and lists, ends with a
  newline; what a tuple or a set holds is served as parsed. Every value that is neither
  a dict, a list nor a str is returned by the transform as it is, every non-string leaf
  of the result is one of the parsed content, and when stripping makes no two keys of
  a dict equal the non-string leaves of the result are those of the parsed content, in
  the same order.
\<close>

theorem loaded_document_is_trimmed:
  assumes "endpoint_loaded_documents glob safe_load = Inr store"
    and "map_of store d = Some c"
  shows "get_document_content store d = Inr c \<and>
         (\<exists>f\<in>set (glob ''yml/*.yml''). document_name_of f = d \<and>
            (\<exists>v. safe_load f = Inr v \<and> c = transform_data v \<and>
                 set (other_leaves c) \<subseteq> set (other_leaves v) \<and>
                 (collision_free v \<longrightarrow> other_leaves c = other_leaves v))) \<and>
         (\<forall>s\<in>visited_strings c. \<not> ends_with_newline s) \<and>
         (\<forall>x xs S. transform_data (PLeaf LNone :: 'a pyval) = PLeaf LNone \<and>
              transform_data (PLeaf (LOther x) :: 'a pyval) = PLeaf (LOther x) \<and>
              transform_data (PTuple xs :: 'a pyval) = PTuple xs \<and>
              transform_data (PSet S :: 'a pyval) = PSet S)"
proof -
  have r: "endpoint_collect (map (endpoint_load_document safe_load) (glob ''yml/*.yml'')) []
             = Inr store"
    using assms(1) by (simp add: endpoint_loaded_documents_def)
  have "Inr (d, c) \<in> set (map (endpoint_load_document safe_load) (glob ''yml/*.yml''))"
    using endpoint_collect_origin [OF r assms(2)] by simp
  then obtain f where f: "f \<in> set (glob ''yml/*.yml'')"
    and "endpoint_load_document safe_load f = Inr (d, c)"
    by auto
  then obtain v where v: "document_name_of f = d" "safe_load f = Inr v" "c = transform_data v"
    by (auto simp: endpoint_load_document_Inr)
  have "get_document_content store d = Inr c"
    using assms(2) by (simp add: get_document_content_def check_document_loaded_present)
  moreover have "\<forall>s\<in>visited_strings c. \<not> ends_with_newline s"
    using v(3) visited_strings_transform_data by blast
  moreover have "set (other_leaves c) \<subseteq> set (other_leaves v)"
    using v(3) other_leaves_transform_data by blast
  moreover have "collision_free v \<longrightarrow> other_leaves c = other_leaves v"
    using v(3) other_leaves_collision_free by blast
  ultimately show ?thesis using f v by auto
qed

theorem loaded_document_is_trimmed_witness:
  "endpoint_loaded_documents example_glob example_safe_load = Inr example_store \<and>
   map_of example_store ''policy_a'' = Some example_document \<and>
   get_document_content example_store ''policy_a'' = Inr example_document \<and>
   example_document = transform_data example_raw \<and>
   ''control access'' \<in> visited_strings example_document \<and>
   \<not> ends_with_newline ''control access''"
proof -
  have h1: "endpoint_loaded_documents example_glob example_safe_load = Inr example_store"
    by (simp add: endpoint_loaded_documents_def example_glob_def example_safe_load_def
      endpoint_load_document_def read_yaml_file_def example_raw_def example_store_def
      example_document_def dict_of_items_def rstrip_newline_def document_name_of_def
      basename_def)
  have h2: "map_of example_store ''policy_a'' = Some example_document"
    by (simp add: example_store_def)
  have h3: "example_document = transform_data example_raw"
    by (simp add: example_raw_def example_document_def dict_of_items_def rstrip_newline_def)
  have h4: "''control access'' \<in> visited_strings example_document"
    by (simp add: example_document_def)
  show ?thesis
    using h1 h2 h3 h4 loaded_document_is_trimmed [OF h1 h2]
    by blast
qed

text \<open>
  Claim C8. When the globbed files hold several files of one derived document name and
  \<open>f\<close> is the last of them, then in both load loops, provided no file's read raises,
  the load returns a store (it does not crash on the repeated name) and the store maps
  that name to the content of \<open>f\<close>: the later assignment overwrites the earlier one.
\<close>

theorem same_name_last_writer_wins:
  assumes "files = pre @ f # post"
    and "\<forall>g\<in>set post. document_name_of g \<noteq> document_name_of f"
  shows "(glob ''yml/*.yml'' = files \<and> (\<forall>g\<in>set files. \<exists>v. safe_load g = Inr v) \<longrightarrow>
            (\<exists>store v. endpoint_loaded_documents glob safe_load = Inr store \<and>
               safe_load f = Inr v \<and>
               map_of store (document_name_of f) = Some (transform_data v))) \<and>
         (glob (directory @ ''/*.yml'') = files \<and>
          (\<forall>g\<in>set files. \<exists>v. imported_read g = Inr v) \<and>
          imported_read f = Inr c \<and> c \<noteq> PLeaf LNone \<longrightarrow>
            (\<exists>store. populate_loaded_documents glob imported_read directory = Inr store \<and>
               map_of store (document_name_of f) = Some c))"
proof (intro conjI impI)
  assume a: "glob ''yml/*.yml'' = files \<and> (\<forall>g\<in>set files. \<exists>v. safe_load g = Inr v)"
  then obtain v where v: "safe_load f = Inr v" using assms(1) by auto
  let ?ld = "\<lambda>g. map_sum id Some (endpoint_load_document safe_load g)"
  have f: "?ld f = Inr (Some (document_name_of f, transform_data v))"
    using v by (simp add: endpoint_load_document_def read_yaml_file_def)
  have ok: "\<forall>r\<in>set (map ?ld pre @ map ?ld post). \<exists>x. r = Inr x"
  proof
    fix r assume "r \<in> set (map ?ld pre @ map ?ld post)"
    then obtain g where g: "g \<in> set files" "r = ?ld g"
      using assms(1) by auto
    with a obtain w where "safe_load g = Inr w" by auto
    with g show "\<exists>x. r = Inr x" by (simp add: endpoint_load_document_ok)
  qed
  have later: "\<forall>c'. Inr (Some (document_name_of f, c')) \<notin> set (map ?ld post)"
  proof (intro allI notI)
    fix c' assume "Inr (Some (document_name_of f, c')) \<in> set (map ?ld post)"
    then obtain g where "g \<in> set post" "?ld g = Inr (Some (document_name_of f, c'))"
      by auto
    then have "g \<in> set post" "document_name_of g = document_name_of f"
      by (cases "safe_load g"; simp add: endpoint_load_document_def read_yaml_file_def)+
    with assms(2) show False by auto
  qed
  from populate_collect_last [OF ok later, of "transform_data v" "[]"]
  obtain store where "populate_collect (map ?ld pre @ ?ld f # map ?ld post) [] = Inr store"
    "map_of store (document_name_of f) = Some (transform_data v)"
    using f by auto
  then show "\<exists>store v. endpoint_loaded_documents glob safe_load = Inr store \<and>
               safe_load f = Inr v \<and>
               map_of store (document_name_of f) = Some (transform_data v)"
    using a assms(1) v
    by (simp add: endpoint_loaded_documents_def endpoint_collect_populate comp_def)
next
  assume a: "glob (directory @ ''/*.yml'') = files \<and>
          (\<forall>g\<in>set files. \<exists>v. imported_read g = Inr v) \<and>
          imported_read f = Inr c \<and> c \<noteq> PLeaf LNone"
  let ?ld = "load_document imported_read"
  have f: "?ld f = Inr (Some (document_name_of f, c))"
    using a by (simp add: load_document_def)
  have ok: "\<forall>r\<in>set (map ?ld pre @ map ?ld post). \<exists>x. r = Inr x"
  proof
    fix r assume "r \<in> set (map ?ld pre @ map ?ld post)"
    then obtain g where g: "g \<in> set files" "r = ?ld g"
      using assms(1) by auto
    with a obtain w where "imported_read g = Inr w" by auto
    with g show "\<exists>x. r = Inr x" by (simp add: load_document_ok)
  qed
  have later: "\<forall>c'. Inr (Some (document_name_of f, c')) \<notin> set (map ?ld post)"
  proof (intro allI notI)
    fix c' assume "Inr (Some (document_name_of f, c')) \<in> set (map ?ld post)"
    then obtain g where "g \<in> set post" "?ld g = Inr (Some (document_name_of f, c'))"
      by auto
    then have "g \<in> set post" "document_name_of g = document_name_of f"
      by (cases "imported_read g"; simp add: load_document_def split: if_splits)+
    with assms(2) show False by auto
  qed
  from populate_collect_last [OF ok later, of c "[]"]
  obtain store where "populate_collect (map ?ld pre @ ?ld f # map ?ld post) [] = Inr store"
    "map_of store (document_name_of f) = Some c"
    using f by auto
  then show "\<exists>store. populate_loaded_documents glob imported_read directory = Inr store \<and>
               map_of store (document_name_of f) = Some c"
    using a assms(1) by (simp add: populate_loaded_documents_def)
qed

theorem same_name_last_writer_wins_witness:
  "document_name_of ''yml/policy_a.v1.yml'' = ''policy_a'' \<and>
   document_name_of ''yml/policy_a.v2.yml'' = ''policy_a'' \<and>
   (\<exists>store. endpoint_loaded_documents duplicate_glob duplicate_read = Inr store \<and>
      map_of store ''policy_a'' = Some (PDict [(LStr ''title'', PLeaf (LStr ''second''))])) \<and>
   (\<exists>store. populate_loaded_documents duplicate_glob duplicate_read ''yml'' = Inr store \<and>
      map_of store ''policy_a'' =
        Some (PDict [(LStr ''title'', PLeaf (LStr ''second\<newline>''))]))"
proof -
  have n1: "document_name_of ''yml/policy_a.v1.yml'' = ''policy_a''"
    by (simp add: document_name_of_def basename_def)
  have n2: "document_name_of ''yml/policy_a.v2.yml'' = ''policy_a''"
    by (simp add: document_name_of_def basename_def)
  have files: "[''yml/policy_a.v1.yml'', ''yml/policy_a.v2.yml''] =
      [''yml/policy_a.v1.yml''] @ ''yml/policy_a.v2.yml'' # []"
    by simp
  have last: "\<forall>g\<in>set []. document_name_of g \<noteq> document_name_of ''yml/policy_a.v2.yml''"
    by simp
  show ?thesis
    using same_name_last_writer_wins [OF files last,
        of duplicate_glob duplicate_read "''yml''" duplicate_read
          "PDict [(LStr ''title'', PLeaf (LStr ''second\<newline>''))]"]
    by (simp add: n1 n2 duplicate_glob_def duplicate_read_def dict_of_items_def
        rstrip_newline_def)
qed

text \<open>
  Claim C9, as stated for every document of the store, fails on a stored document that
  is not a mapping. The load of endpoint.py stores \<^verbatim>\<open>None\<close> for an empty file, and both
  loads store a list for a file that holds a YAML sequence; the sections handler calls
  \<^verbatim>\<open>keys()\<close> on it and raises \<^verbatim>\<open>AttributeError\<close>.
\<close>

theorem sections_fail_on_empty_file:
  "endpoint_loaded_documents empty_glob empty_safe_load = Inr empty_store \<and>
   map_of empty_store ''empty'' = Some (PLeaf LNone) \<and>
   get_document_content_sections empty_store ''empty'' = Inl AttributeError \<and>
   get_document_content_sections notes_store ''notes'' = Inl AttributeError"
  by (simp add: endpoint_loaded_documents_def empty_glob_def empty_safe_load_def
      empty_store_def notes_store_def endpoint_load_document_def read_yaml_file_def
      document_name_of_def basename_def get_document_content_sections_def
      check_document_loaded_def)

text \<open>
  Claim C9, amended. For a document of the store that is a mapping, however few keys it
  has, the sections handler returns a list: an insertion past the end of the list
  appends. The
  result has two more elements than the document has keys and holds both
  \<^verbatim>\<open>"metadata"\<close> and \<^verbatim>\<open>"document_control"\<close>; with at most six keys both names follow the
  keys, and with seven to nine keys \<^verbatim>\<open>"document_control"\<close> is the last element.
\<close>

theorem sections_never_fail:
  assumes "map_of store d = Some (PDict kvs)"
  shows "\<exists>r. get_document_content_sections store d = Inr r \<and>
           length r = length kvs + 2 \<and>
           LStr ''metadata'' \<in> set r \<and> LStr ''document_control'' \<in> set r \<and>
           (length kvs \<le> 6 \<longrightarrow>
              r = map fst kvs @ [LStr ''metadata'', LStr ''document_control'']) \<and>
           (6 < length kvs \<and> length kvs \<le> 9 \<longrightarrow>
              r = take 6 (map fst kvs) @ [LStr ''metadata''] @ drop 6 (map fst kvs) @
                  [LStr ''document_control''])"
proof -
  let ?mid = "list_insert 6 (LStr ''metadata'') (map fst kvs)"
  let ?r = "list_insert 10 (LStr ''document_control'') ?mid"
  have a: "get_document_content_sections store d = Inr ?r"
    using assms by (rule sections_of_dict)
  have b: "length ?r = length kvs + 2"
    by (simp add: length_list_insert)
  have c: "LStr ''metadata'' \<in> set ?r \<and> LStr ''document_control'' \<in> set ?r"
    by (simp add: set_list_insert)
  have d: "?r = map fst kvs @ [LStr ''metadata'', LStr ''document_control'']"
    if "length kvs \<le> 6"
    using that by (simp add: list_insert_def)
  have e: "?r = take 6 (map fst kvs) @ [LStr ''metadata''] @ drop 6 (map fst kvs) @
                  [LStr ''document_control'']"
    if "6 < length kvs \<and> length kvs \<le> 9"
  proof -
    from that have "min (length kvs) 6 = 6" "length kvs - 6 \<le> 3" by arith+
    then show ?thesis by (simp add: list_insert_def)
  qed
  from a b c d e show ?thesis by blast
qed

theorem sections_never_fail_witness:
  "map_of short_store ''memo'' = Some (PDict [(LStr ''title'', PLeaf (LStr ''Memo''))]) \<and>
   get_document_content_sections short_store ''memo'' =
     Inr [LStr ''title'', LStr ''metadata'', LStr ''document_control'']"
proof -
  have h: "map_of short_store ''memo'' = Some (PDict [(LStr ''title'', PLeaf (LStr ''Memo''))])"
    by (simp add: short_store_def)
  show ?thesis
    using h sections_never_fail [OF h] by auto
qed

end
